theory Spec2Isabelle
  imports Complex_Main "HOL-Library.Finite_Map" "HOL-Library.Sublist"
begin

section \<open>Values of the JavaScript runtime\<close>

text \<open>
  The product API of \<^verbatim>\<open>index.js\<close> keeps JSON objects in an array and answers
  with JSON. A JSON value is what \<^verbatim>\<open>JSON.parse\<close> yields; an object is a finite map
  from property names to values (the enumeration order of an object's properties only
  shows in the serialised text). A property that is absent reads as \<^verbatim>\<open>undefined\<close>,
  which is \<open>None\<close> for \<open>fmlookup\<close>. A string is the UTF-8 bytes of the JavaScript
  string. \<open>JNum\<close> holds a finite number: \<^verbatim>\<open>Infinity\<close>, which \<^verbatim>\<open>JSON.parse\<close> gives
  for a literal beyond the range of a double, is left out of the values.
\<close>

datatype json =
    JNull
  | JBool bool
  | JNum real
  | JStr string
  | JArr "json list"
  | JObj "(string, json) fmap"

type_synonym obj = "(string, json) fmap"

datatype jsError = TypeError | SyntaxError

text \<open>\<^verbatim>\<open>!v\<close>: the falsy values are undefined, null, false, 0 and the empty string.\<close>

fun falsy :: "json option \<Rightarrow> bool" where
  "falsy None = True"
| "falsy (Some JNull) = True"
| "falsy (Some (JBool b)) = (\<not> b)"
| "falsy (Some (JNum n)) = (n = 0)"
| "falsy (Some (JStr s)) = (s = [])"
| "falsy (Some (JArr xs)) = False"
| "falsy (Some (JObj kvs)) = False"

fun typeof :: "json option \<Rightarrow> string" where
  "typeof None = ''undefined''"
| "typeof (Some JNull) = ''object''"
| "typeof (Some (JBool b)) = ''boolean''"
| "typeof (Some (JNum n)) = ''number''"
| "typeof (Some (JStr s)) = ''string''"
| "typeof (Some (JArr xs)) = ''object''"
| "typeof (Some (JObj kvs)) = ''object''"

definition lowerChar :: "char \<Rightarrow> char" where
  "lowerChar c =
     (case map_of (zip ''ABCDEFGHIJKLMNOPQRSTUVWXYZ'' ''abcdefghijklmnopqrstuvwxyz'') c of
        Some d \<Rightarrow> d
      | None \<Rightarrow> c)"

definition asciiLower :: "string \<Rightarrow> string" where
  "asciiLower s = map lowerChar s"

definition isAscii :: "string \<Rightarrow> bool" where
  "isAscii s = list_all (\<lambda>c. \<not> digit7 c) s"

text \<open>
  \<^verbatim>\<open>s.toLowerCase()\<close> follows the Unicode case mapping. On a string of ASCII
  characters that is \<open>asciiLower\<close>; what it gives on any other string is left open,
  so that nothing is stated about it that the Unicode tables would not bear out.
\<close>

definition toLowerCase :: "string \<Rightarrow> string" where
  "toLowerCase s = (if isAscii s then asciiLower s else undefined s)"

text \<open>\<^verbatim>\<open>s.includes(t)\<close>: \<open>t\<close> occurs in \<open>s\<close> as a contiguous run of characters.\<close>

definition includesStr :: "string \<Rightarrow> string \<Rightarrow> bool" where
  "includesStr s t = sublist t s"

text \<open>\<^verbatim>\<open>xs.join(",")\<close> on strings.\<close>

fun joinComma :: "string list \<Rightarrow> string" where
  "joinComma [] = []"
| "joinComma [x] = x"
| "joinComma (x # y # ys) = x @ '','' @ joinComma (y # ys)"

text \<open>
  \<^verbatim>\<open>Array.prototype.filter\<close> with a callback that may throw: the elements are visited in
  order and the first exception ends the call.
\<close>

fun filterJs :: "('a \<Rightarrow> jsError + bool) \<Rightarrow> 'a list \<Rightarrow> jsError + 'a list" where
  "filterJs f [] = Inr []"
| "filterJs f (x # xs) =
     (case f x of
        Inl e \<Rightarrow> Inl e
      | Inr b \<Rightarrow>
          (case filterJs f xs of
             Inl e \<Rightarrow> Inl e
           | Inr ys \<Rightarrow> Inr (if b then x # ys else ys)))"

text \<open>\<^verbatim>\<open>Array.prototype.findIndex\<close>; \<open>None\<close> is the result \<^verbatim>\<open>-1\<close>.\<close>

fun findIndex :: "('a \<Rightarrow> bool) \<Rightarrow> 'a list \<Rightarrow> nat option" where
  "findIndex P [] = None"
| "findIndex P (x # xs) =
     (if P x then Some 0 else map_option Suc (findIndex P xs))"

subsection \<open>Numbers\<close>

text \<open>
  The numbers that the list route computes with are doubles whose value is an integer,
  the two infinities and \<^verbatim>\<open>NaN\<close>. \<open>toDouble\<close> rounds an integer to the nearest
  double, ties to the even significand of 53 bits, and to an infinity from
  \<open>2 ^ 1024 - 2 ^ 970\<close> on. The sign of zero is not kept: \<^verbatim>\<open>slice\<close> and
  \<^verbatim>\<open>res.json\<close> treat both zeros alike.
\<close>

datatype number = NaN | PosInf | NegInf | Num int

function bitLength :: "int \<Rightarrow> nat" where
  "bitLength n = (if n \<le> 0 then 0 else Suc (bitLength (n div 2)))"
  by pat_completeness auto
termination
  by (relation "measure nat") auto

declare bitLength.simps [simp del]

definition toDouble :: "int \<Rightarrow> number" where
  "toDouble n =
     (let a = \<bar>n\<bar>
      in if a < 2 ^ 53 then Num n
         else
           (let e = bitLength a - 53;
                q = a div 2 ^ e;
                r = a mod 2 ^ e;
                q' = (if 2 ^ e < 2 * r \<or> (2 * r = 2 ^ e \<and> odd q) then q + 1 else q);
                m = q' * 2 ^ e
            in if 2 ^ 1024 \<le> m then (if n < 0 then NegInf else PosInf)
               else Num (if n < 0 then - m else m)))"

fun numSub :: "number \<Rightarrow> number \<Rightarrow> number" where
  "numSub NaN y = NaN"
| "numSub x NaN = NaN"
| "numSub PosInf PosInf = NaN"
| "numSub NegInf NegInf = NaN"
| "numSub PosInf y = PosInf"
| "numSub NegInf y = NegInf"
| "numSub (Num a) PosInf = NegInf"
| "numSub (Num a) NegInf = PosInf"
| "numSub (Num a) (Num b) = toDouble (a - b)"

fun numAdd :: "number \<Rightarrow> number \<Rightarrow> number" where
  "numAdd NaN y = NaN"
| "numAdd x NaN = NaN"
| "numAdd PosInf NegInf = NaN"
| "numAdd NegInf PosInf = NaN"
| "numAdd PosInf y = PosInf"
| "numAdd NegInf y = NegInf"
| "numAdd (Num a) PosInf = PosInf"
| "numAdd (Num a) NegInf = NegInf"
| "numAdd (Num a) (Num b) = toDouble (a + b)"

fun numMul :: "number \<Rightarrow> number \<Rightarrow> number" where
  "numMul NaN y = NaN"
| "numMul x NaN = NaN"
| "numMul (Num a) (Num b) = toDouble (a * b)"
| "numMul (Num a) PosInf = (if a = 0 then NaN else if 0 < a then PosInf else NegInf)"
| "numMul (Num a) NegInf = (if a = 0 then NaN else if 0 < a then NegInf else PosInf)"
| "numMul PosInf (Num b) = (if b = 0 then NaN else if 0 < b then PosInf else NegInf)"
| "numMul NegInf (Num b) = (if b = 0 then NaN else if 0 < b then NegInf else PosInf)"
| "numMul PosInf PosInf = PosInf"
| "numMul PosInf NegInf = NegInf"
| "numMul NegInf PosInf = NegInf"
| "numMul NegInf NegInf = PosInf"


text \<open>
  \<^verbatim>\<open>parseInt(s)\<close> with no radix: leading white space is skipped, a sign is read, a
  prefix \<^verbatim>\<open>0x\<close> selects radix 16, and the longest run of digits is the value, rounded
  to a double; no digit gives \<^verbatim>\<open>NaN\<close>. White space is that of ECMAScript, the
  characters beyond ASCII in their UTF-8 bytes.
\<close>

definition whiteSpace :: "string list" where
  "whiteSpace =
     [[CHR 0x09], [CHR 0x0A], [CHR 0x0B], [CHR 0x0C], [CHR 0x0D], [CHR 0x20],
      [CHR 0xC2, CHR 0xA0], [CHR 0xE1, CHR 0x9A, CHR 0x80],
      [CHR 0xE2, CHR 0x80, CHR 0x80], [CHR 0xE2, CHR 0x80, CHR 0x81],
      [CHR 0xE2, CHR 0x80, CHR 0x82], [CHR 0xE2, CHR 0x80, CHR 0x83],
      [CHR 0xE2, CHR 0x80, CHR 0x84], [CHR 0xE2, CHR 0x80, CHR 0x85],
      [CHR 0xE2, CHR 0x80, CHR 0x86], [CHR 0xE2, CHR 0x80, CHR 0x87],
      [CHR 0xE2, CHR 0x80, CHR 0x88], [CHR 0xE2, CHR 0x80, CHR 0x89],
      [CHR 0xE2, CHR 0x80, CHR 0x8A], [CHR 0xE2, CHR 0x80, CHR 0xA8],
      [CHR 0xE2, CHR 0x80, CHR 0xA9], [CHR 0xE2, CHR 0x80, CHR 0xAF],
      [CHR 0xE2, CHR 0x81, CHR 0x9F], [CHR 0xE3, CHR 0x80, CHR 0x80],
      [CHR 0xEF, CHR 0xBB, CHR 0xBF]]"

function skipWhiteSpace :: "string \<Rightarrow> string" where
  "skipWhiteSpace s =
     (case find (\<lambda>w. prefix w s) whiteSpace of
        None \<Rightarrow> s
      | Some w \<Rightarrow> if w = [] then s else skipWhiteSpace (drop (length w) s))"
  by pat_completeness auto
termination
  by (relation "measure length") (auto simp: find_Some_iff prefix_def)

declare skipWhiteSpace.simps [simp del]

definition digitValue :: "char \<Rightarrow> nat option" where
  "digitValue c =
     map_of (zip ''0123456789abcdef'' [0 ..< 16] @ zip ''ABCDEF'' [10 ..< 16]) c"

definition isDigitOf :: "nat \<Rightarrow> char \<Rightarrow> bool" where
  "isDigitOf radix c = (case digitValue c of None \<Rightarrow> False | Some d \<Rightarrow> d < radix)"

definition digitsValue :: "nat \<Rightarrow> string \<Rightarrow> int" where
  "digitsValue radix ds =
     foldl (\<lambda>acc c. acc * int radix + (case digitValue c of None \<Rightarrow> 0 | Some d \<Rightarrow> int d))
       0 ds"

fun stripSign :: "string \<Rightarrow> bool \<times> string" where
  "stripSign [] = (False, [])"
| "stripSign (c # cs) =
     (if c = CHR ''-'' then (True, cs)
      else if c = CHR ''+'' then (False, cs)
      else (False, c # cs))"

fun stripPrefix :: "string \<Rightarrow> nat \<times> string" where
  "stripPrefix (a # b # cs) =
     (if a = CHR ''0'' \<and> (b = CHR ''x'' \<or> b = CHR ''X'') then (16, cs)
      else (10, a # b # cs))"
| "stripPrefix cs = (10, cs)"

definition parseInt :: "string \<Rightarrow> number" where
  "parseInt s =
     (let (neg, s1) = stripSign (skipWhiteSpace s);
          (radix, s2) = stripPrefix s1;
          ds = takeWhile (isDigitOf radix) s2
      in if ds = [] then NaN
         else toDouble ((if neg then - 1 else 1) * digitsValue radix ds))"

text \<open>
  \<^verbatim>\<open>xs.slice(start, end)\<close>: \<^verbatim>\<open>NaN\<close> counts as 0, a negative bound counts from the
  end of the array, and both bounds are clamped to the array.
\<close>

definition relativeIndex :: "number \<Rightarrow> nat \<Rightarrow> nat" where
  "relativeIndex k len =
     (case k of
        NaN \<Rightarrow> 0
      | PosInf \<Rightarrow> len
      | NegInf \<Rightarrow> 0
      | Num i \<Rightarrow>
          if i < 0 then nat (max (int len + i) 0)
          else if int len \<le> i then len
          else nat i)"

definition slice :: "number \<Rightarrow> number \<Rightarrow> 'a list \<Rightarrow> 'a list" where
  "slice start stop xs =
     (let k = relativeIndex start (length xs);
          final = relativeIndex stop (length xs)
      in take (final - k) (drop k xs))"

text \<open>\<^verbatim>\<open>res.json\<close> writes \<^verbatim>\<open>NaN\<close> and the infinities as \<^verbatim>\<open>null\<close>.\<close>

definition numJson :: "number \<Rightarrow> json" where
  "numJson n = (case n of Num i \<Rightarrow> JNum (of_int i) | _ \<Rightarrow> JNull)"

section \<open>Requests, responses and the store\<close>

text \<open>
  A request is modelled as the router receives it, after the logger and
  \<^verbatim>\<open>express.json()\<close> have passed it on: \<open>segments\<close> holds the segments of the URL path
  (a slash at its end, which Express's routing disregards, leaves no segment),
  \<open>x_api_key\<close> the header of that name, \<open>query\<close> is \<^verbatim>\<open>req.query\<close> and \<open>body\<close> is
  \<^verbatim>\<open>req.body\<close>, the parsed JSON object. The body is the empty object when the
  request has none, as Express 4 leaves it, and also stands for a JSON array, which
  has none of the properties that the validator reads. A query parameter is a string,
  an array when the parameter is repeated, or an object when it is written with
  brackets. \<open>OtherMethod\<close> is a verb that no route is registered for, such as PATCH;
  HEAD and OPTIONS, which Express serves on its own account, are left out.
\<close>

datatype verb = GET | POST | PUT | DELETE | OtherMethod

datatype qvalue = QStr string | QArr "string list" | QObj

record request =
  verb :: verb
  segments :: "string list"
  x_api_key :: "string option"
  query :: "string \<Rightarrow> qvalue option"
  body :: obj

datatype payload = Json json | Empty | Html

record response =
  status :: nat
  payload :: payload

type_synonym store = "obj list"

definition json :: "nat \<Rightarrow> json \<Rightarrow> response" where
  "json code v = \<lparr>status = code, payload = Json v\<rparr>"

definition errorBody :: "string \<Rightarrow> json" where
  "errorBody msg = JObj (fmap_of_list [(''error'', JStr msg)])"

text \<open>Truthiness and string conversion of a query parameter.\<close>

fun qTruthy :: "qvalue \<Rightarrow> bool" where
  "qTruthy (QStr s) = (s \<noteq> [])"
| "qTruthy (QArr xs) = True"
| "qTruthy QObj = True"

fun qToString :: "qvalue \<Rightarrow> string" where
  "qToString (QStr s) = s"
| "qToString (QArr xs) = joinComma xs"
| "qToString QObj = ''[object Object]''"

section \<open>Middleware\<close>

text \<open>A middleware either answers (\<open>Some\<close>) or calls \<^verbatim>\<open>next()\<close> (\<open>None\<close>).\<close>

definition authenticate :: "request \<Rightarrow> response option" where
  "authenticate req =
     (if x_api_key req \<noteq> Some ''123456''
      then Some (json 401 (errorBody ''Unauthorized: Invalid API Key''))
      else None)"

definition validateProduct :: "request \<Rightarrow> response option" where
  "validateProduct req =
     (let name = fmlookup (body req) ''name'';
          description = fmlookup (body req) ''description'';
          price = fmlookup (body req) ''price'';
          category = fmlookup (body req) ''category'';
          inStock = fmlookup (body req) ''inStock''
      in if falsy name \<or> falsy description \<or> price = None \<or> falsy category \<or> inStock = None
         then Some (json 400 (errorBody ''All fields are required''))
         else if typeof price \<noteq> ''number'' \<or> typeof inStock \<noteq> ''boolean''
         then Some (json 400 (errorBody ''Invalid data types for price or inStock''))
         else None)"

text \<open>The global error handler answers every exception alike.\<close>

definition errorHandler :: "jsError \<Rightarrow> response" where
  "errorHandler err = json 500 (errorBody ''Something went wrong'')"

section \<open>Route handlers\<close>

text \<open>
  The handlers read the array \<^verbatim>\<open>products\<close> and the three that change it return the
  new array. \<^verbatim>\<open>req.params\<close> maps the names of the path pattern to the matched
  segments. A handler that throws is answered by the error handler; \<open>Inl\<close> is the
  exception.
\<close>

definition sameCategory :: "qvalue \<Rightarrow> obj \<Rightarrow> jsError + bool" where
  "sameCategory category p =
     (case fmlookup p ''category'' of
        Some (JStr c) \<Rightarrow>
          (case category of
             QStr q \<Rightarrow> Inr (toLowerCase c = toLowerCase q)
           | _ \<Rightarrow> Inl TypeError)
      | _ \<Rightarrow> Inl TypeError)"

definition parseParam :: "qvalue option \<Rightarrow> string \<Rightarrow> number" where
  "parseParam v dflt = parseInt (case v of None \<Rightarrow> dflt | Some q \<Rightarrow> qToString q)"

definition listHandler :: "store \<Rightarrow> request \<Rightarrow> jsError + response" where
  "listHandler products req =
     (case (case query req ''category'' of
              None \<Rightarrow> Inr products
            | Some category \<Rightarrow>
                if qTruthy category then filterJs (sameCategory category) products
                else Inr products) of
        Inl e \<Rightarrow> Inl e
      | Inr filtered \<Rightarrow>
          (let page = parseParam (query req ''page'') ''1'';
               limit = parseParam (query req ''limit'') ''10'';
               start = numMul (numSub page (Num 1)) limit;
               stop = numAdd start limit;
               paginated = slice start stop filtered
           in Inr (json 200 (JObj (fmap_of_list
                [(''total'', JNum (of_nat (length filtered))),
                 (''page'', numJson page),
                 (''limit'', numJson limit),
                 (''data'', JArr (map JObj paginated))])))))"

definition hasId :: "string option \<Rightarrow> obj \<Rightarrow> bool" where
  "hasId i p = (fmlookup p ''id'' = map_option JStr i)"

definition notFound :: response where
  "notFound = json 404 (errorBody ''Product not found'')"

definition getHandler :: "store \<Rightarrow> (string \<Rightarrow> string option) \<Rightarrow> response" where
  "getHandler products params =
     (case find (hasId (params ''id'')) products of
        None \<Rightarrow> notFound
      | Some product \<Rightarrow> json 200 (JObj product))"

text \<open>
  An object literal \<^verbatim>\<open>{ id: v, ...req.body }\<close>: the properties of the body are
  written after \<^verbatim>\<open>id\<close> and replace it when the body has one of that name.
\<close>

definition idObject :: "string option \<Rightarrow> obj" where
  "idObject i = (case i of None \<Rightarrow> fmempty | Some v \<Rightarrow> fmupd ''id'' (JStr v) fmempty)"

definition createHandler :: "string \<Rightarrow> store \<Rightarrow> request \<Rightarrow> response \<times> store" where
  "createHandler uuidv4 products req =
     (let newProduct = idObject (Some uuidv4) ++\<^sub>f body req
      in (json 201 (JObj newProduct), products @ [newProduct]))"

definition replaceHandler ::
  "store \<Rightarrow> request \<Rightarrow> (string \<Rightarrow> string option) \<Rightarrow> response \<times> store" where
  "replaceHandler products req params =
     (case findIndex (hasId (params ''id'')) products of
        None \<Rightarrow> (notFound, products)
      | Some index \<Rightarrow>
          (let products' = products[index := idObject (params ''id'') ++\<^sub>f body req]
           in (json 200 (JObj (products' ! index)), products')))"

definition deleteHandler :: "store \<Rightarrow> (string \<Rightarrow> string option) \<Rightarrow> response \<times> store" where
  "deleteHandler products params =
     (case findIndex (hasId (params ''id'')) products of
        None \<Rightarrow> (notFound, products)
      | Some index \<Rightarrow>
          (\<lparr>status = 204, payload = Empty\<rparr>, take index products @ drop (Suc index) products))"

definition nameIncludes :: "qvalue \<Rightarrow> obj \<Rightarrow> jsError + bool" where
  "nameIncludes q p =
     (case fmlookup p ''name'' of
        Some (JStr n) \<Rightarrow>
          (case q of
             QStr s \<Rightarrow> Inr (includesStr (toLowerCase n) (toLowerCase s))
           | _ \<Rightarrow> Inl TypeError)
      | _ \<Rightarrow> Inl TypeError)"

definition searchHandler :: "store \<Rightarrow> request \<Rightarrow> jsError + response" where
  "searchHandler products req =
     (case query req ''q'' of
        None \<Rightarrow> Inr (json 400 (errorBody ''Missing search query (?q=)''))
      | Some q \<Rightarrow>
          if \<not> qTruthy q then Inr (json 400 (errorBody ''Missing search query (?q=)''))
          else
            (case filterJs (nameIncludes q) products of
               Inl e \<Rightarrow> Inl e
             | Inr results \<Rightarrow>
                 Inr (json 200 (JObj (fmap_of_list
                   [(''count'', JNum (of_nat (length results))),
                    (''results'', JArr (map JObj results))])))))"

subsection \<open>The statistics handler\<close>

text \<open>
  \<^verbatim>\<open>stats[p.category]\<close> converts the category to a property name. A number is
  written in decimal digits when it is an integer below \<open>10 ^ 21\<close>; the digits of any
  other number are left open. An array is the join of its elements, and an object is
  \<^verbatim>\<open>[object Object]\<close> unless a property \<^verbatim>\<open>toString\<close> of its own, which JSON cannot
  make callable, lets the conversion throw.
\<close>

fun digitsOf :: "nat \<Rightarrow> string" where
  "digitsOf n =
     (if n < 10 then [''0123456789'' ! n]
      else digitsOf (n div 10) @ [''0123456789'' ! (n mod 10)])"

declare digitsOf.simps [simp del]

definition numberToString :: "real \<Rightarrow> string" where
  "numberToString x =
     (if x = of_int \<lfloor>x\<rfloor> \<and> \<bar>x\<bar> < 10 ^ 21
      then (if x < 0 then ''-'' else []) @ digitsOf (nat \<bar>\<lfloor>x\<rfloor>\<bar>)
      else undefined)"

fun sequence :: "(jsError + 'a) list \<Rightarrow> jsError + 'a list" where
  "sequence [] = Inr []"
| "sequence (x # xs) =
     (case x of
        Inl e \<Rightarrow> Inl e
      | Inr v \<Rightarrow> (case sequence xs of Inl e \<Rightarrow> Inl e | Inr vs \<Rightarrow> Inr (v # vs)))"

fun toStringJs :: "json \<Rightarrow> jsError + string" where
  "toStringJs JNull = Inr ''null''"
| "toStringJs (JBool b) = Inr (if b then ''true'' else ''false'')"
| "toStringJs (JNum x) = Inr (numberToString x)"
| "toStringJs (JStr s) = Inr s"
| "toStringJs (JArr xs) =
     (case sequence (map (\<lambda>v. if v = JNull then Inr [] else toStringJs v) xs) of
        Inl e \<Rightarrow> Inl e
      | Inr strs \<Rightarrow> Inr (joinComma strs))"
| "toStringJs (JObj kvs) =
     (if fmlookup kvs ''toString'' \<noteq> None then Inl TypeError else Inr ''[object Object]'')"

definition toPropertyKey :: "json option \<Rightarrow> jsError + string" where
  "toPropertyKey v = (case v of None \<Rightarrow> Inr ''undefined'' | Some w \<Rightarrow> toStringJs w)"

text \<open>
  The object \<^verbatim>\<open>stats\<close> starts as \<^verbatim>\<open>{}\<close> and holds counts. Reading a name it does
  not have finds the functions of \<^verbatim>\<open>Object.prototype\<close>, which are truthy and become
  text when 1 is added; the name \<^verbatim>\<open>__proto__\<close> reads as the prototype and cannot be
  assigned a string.
\<close>

datatype tally = Count nat | Text string

definition prototypeFunctions :: "string list" where
  "prototypeFunctions =
     [''constructor'', ''__defineGetter__'', ''__defineSetter__'', ''hasOwnProperty'',
      ''__lookupGetter__'', ''__lookupSetter__'', ''isPrototypeOf'',
      ''propertyIsEnumerable'', ''toString'', ''valueOf'', ''toLocaleString'']"

definition functionText :: "string \<Rightarrow> string" where
  "functionText k =
     ''function '' @ (if k = ''constructor'' then ''Object'' else k) @ ''() { [native code] }''"

text \<open>\<^verbatim>\<open>(v || 0) + 1\<close> for a value held by \<^verbatim>\<open>stats\<close>.\<close>

fun orZeroPlusOne :: "tally \<Rightarrow> tally" where
  "orZeroPlusOne (Count n) = Count (Suc n)"
| "orZeroPlusOne (Text s) = (if s = [] then Count 1 else Text (s @ ''1''))"

definition countCategory :: "string \<Rightarrow> (string, tally) fmap \<Rightarrow> (string, tally) fmap" where
  "countCategory k stats =
     (case fmlookup stats k of
        Some t \<Rightarrow> fmupd k (orZeroPlusOne t) stats
      | None \<Rightarrow>
          if k = ''__proto__'' then stats
          else if k \<in> set prototypeFunctions then fmupd k (Text (functionText k @ ''1'')) stats
          else fmupd k (Count 1) stats)"

fun forEachCategory ::
  "obj list \<Rightarrow> (string, tally) fmap \<Rightarrow> jsError + (string, tally) fmap" where
  "forEachCategory [] stats = Inr stats"
| "forEachCategory (p # ps) stats =
     (case toPropertyKey (fmlookup p ''category'') of
        Inl e \<Rightarrow> Inl e
      | Inr k \<Rightarrow> forEachCategory ps (countCategory k stats))"

fun tallyJson :: "tally \<Rightarrow> json" where
  "tallyJson (Count n) = JNum (of_nat n)"
| "tallyJson (Text s) = JStr s"

definition statsHandler :: "store \<Rightarrow> jsError + response" where
  "statsHandler products =
     (case forEachCategory products fmempty of
        Inl e \<Rightarrow> Inl e
      | Inr stats \<Rightarrow>
          Inr (json 200 (JObj (fmap_of_list
            [(''countByCategory'', JObj (fmmap tallyJson stats))]))))"

section \<open>The router\<close>

text \<open>
  Express tries the routes in the order of their registration and runs the first whose
  method and path pattern match; no handler of this application passes the request on,
  so no later route sees it. A pattern segment \<^verbatim>\<open>:id\<close> matches any one segment that
  is not empty, fixed segments match without regard to the case of ASCII letters, as
  the pattern's regular expression does, and a request that no route matches gets
  Express's own 404 page.
\<close>

datatype segment = Lit string | Param string

datatype route =
    ListProducts
  | GetProduct
  | CreateProduct
  | ReplaceProduct
  | DeleteProduct
  | SearchProducts
  | ProductStats

definition routes :: "(verb \<times> segment list \<times> route) list" where
  "routes =
     [(GET, [Lit ''api'', Lit ''products''], ListProducts),
      (GET, [Lit ''api'', Lit ''products'', Param ''id''], GetProduct),
      (POST, [Lit ''api'', Lit ''products''], CreateProduct),
      (PUT, [Lit ''api'', Lit ''products'', Param ''id''], ReplaceProduct),
      (DELETE, [Lit ''api'', Lit ''products'', Param ''id''], DeleteProduct),
      (GET, [Lit ''api'', Lit ''products'', Lit ''search''], SearchProducts),
      (GET, [Lit ''api'', Lit ''products'', Lit ''stats''], ProductStats)]"

fun matchPath :: "segment list \<Rightarrow> string list \<Rightarrow> (string \<times> string) list option" where
  "matchPath [] [] = Some []"
| "matchPath (Lit l # pat) (s # segs) =
     (if asciiLower l = asciiLower s then matchPath pat segs else None)"
| "matchPath (Param n # pat) (s # segs) =
     (if s = [] then None else map_option ((#) (n, s)) (matchPath pat segs))"
| "matchPath _ _ = None"

fun dispatch ::
  "(verb \<times> segment list \<times> route) list \<Rightarrow> request \<Rightarrow>
   (route \<times> (string \<times> string) list) option" where
  "dispatch [] req = None"
| "dispatch ((m, pat, r) # rest) req =
     (if m = verb req
      then (case matchPath pat (segments req) of
              Some params \<Rightarrow> Some (r, params)
            | None \<Rightarrow> dispatch rest req)
      else dispatch rest req)"

text \<open>The middleware of a route runs in order; the first that answers ends the request.\<close>

fun through ::
  "(request \<Rightarrow> response option) list \<Rightarrow> request \<Rightarrow> store \<Rightarrow> response \<times> store \<Rightarrow>
   response \<times> store" where
  "through [] req products k = k"
| "through (m # ms) req products k =
     (case m req of
        Some res \<Rightarrow> (res, products)
      | None \<Rightarrow> through ms req products k)"

definition catch :: "jsError + response \<Rightarrow> response" where
  "catch r = (case r of Inl e \<Rightarrow> errorHandler e | Inr res \<Rightarrow> res)"

fun handle ::
  "route \<Rightarrow> string \<Rightarrow> store \<Rightarrow> request \<Rightarrow> (string \<Rightarrow> string option) \<Rightarrow> response \<times> store" where
  "handle ListProducts uuidv4 products req params =
     through [authenticate] req products (catch (listHandler products req), products)"
| "handle GetProduct uuidv4 products req params =
     through [authenticate] req products (getHandler products params, products)"
| "handle CreateProduct uuidv4 products req params =
     through [authenticate, validateProduct] req products (createHandler uuidv4 products req)"
| "handle ReplaceProduct uuidv4 products req params =
     through [authenticate, validateProduct] req products (replaceHandler products req params)"
| "handle DeleteProduct uuidv4 products req params =
     through [authenticate] req products (deleteHandler products params)"
| "handle SearchProducts uuidv4 products req params =
     through [authenticate] req products (catch (searchHandler products req), products)"
| "handle ProductStats uuidv4 products req params =
     through [authenticate] req products (catch (statsHandler products), products)"

text \<open>
  The routes against the store, for a request that the logger and
  \<^verbatim>\<open>express.json()\<close> have passed on: \<open>uuidv4\<close> is the identifier that
  \<^verbatim>\<open>uuidv4()\<close> returns if the request calls it.
\<close>

definition app :: "string \<Rightarrow> store \<Rightarrow> request \<Rightarrow> response \<times> store" where
  "app uuidv4 products req =
     (case dispatch routes req of
        None \<Rightarrow> (\<lparr>status = 404, payload = Html\<rparr>, products)
      | Some (r, params) \<Rightarrow> handle r uuidv4 products req (map_of params))"

text \<open>
  The whole chain of \<^verbatim>\<open>index.js\<close>. The logger prints and calls \<^verbatim>\<open>next()\<close>. Then
  \<^verbatim>\<open>express.json()\<close> reads the body: \<open>parseError\<close> is the error it passes to
  \<^verbatim>\<open>next\<close> when the body is not the JSON it accepts, and that error goes past every
  route to the error handler. Otherwise the request reaches the routes with the parsed
  body.
\<close>

record arrival = request +
  parseError :: "jsError option"

definition server :: "string \<Rightarrow> store \<Rightarrow> arrival \<Rightarrow> response \<times> store" where
  "server uuidv4 products a =
     (case parseError a of
        Some err \<Rightarrow> (errorHandler err, products)
      | None \<Rightarrow> app uuidv4 products (request.truncate a))"

text \<open>The stores that a sequence of requests reaches from the empty array.\<close>

inductive reachable :: "store \<Rightarrow> bool" where
  start: "reachable []"
| step: "reachable products \<Longrightarrow> app uuidv4 products req = (res, products') \<Longrightarrow>
         reachable products'"

section \<open>The specification's wording\<close>

text \<open>
  The validator's two conditions as the specification words them: a required text field
  is absent or falsy, or \<^verbatim>\<open>price\<close> or \<^verbatim>\<open>inStock\<close> is undefined; \<^verbatim>\<open>price\<close> is not
  a number or \<^verbatim>\<open>inStock\<close> is not a boolean.
\<close>

definition requiredMissing :: "obj \<Rightarrow> bool" where
  "requiredMissing b =
     ((\<exists>k \<in> {''name'', ''description'', ''category''}.
         fmlookup b k \<in> {None, Some JNull, Some (JBool False), Some (JNum 0), Some (JStr [])}) \<or>
      fmlookup b ''price'' = None \<or> fmlookup b ''inStock'' = None)"

definition wrongTypes :: "obj \<Rightarrow> bool" where
  "wrongTypes b =
     ((\<nexists>x. fmlookup b ''price'' = Some (JNum x)) \<or>
      (\<nexists>v. fmlookup b ''inStock'' = Some (JBool v)))"




text \<open>
  The search result and the category count as the specification words them: the
  products whose name contains the query as a substring, both lower-cased, in store
  order; the number of products whose category is exactly the given string.
\<close>

definition specSearch :: "string \<Rightarrow> store \<Rightarrow> store" where
  "specSearch q products =
     filter (\<lambda>p. case fmlookup p ''name'' of
                    Some (JStr n) \<Rightarrow> sublist (toLowerCase q) (toLowerCase n)
                  | _ \<Rightarrow> False) products"

definition specCount :: "string \<Rightarrow> store \<Rightarrow> nat" where
  "specCount c products = length (filter (\<lambda>p. fmlookup p ''category'' = Some (JStr c)) products)"

section \<open>Sample data\<close>

definition sampleBody :: "string \<Rightarrow> string \<Rightarrow> (string \<times> json) list" where
  "sampleBody n c =
     [(''name'', JStr n), (''description'', JStr ''text''), (''price'', JNum 0),
      (''category'', JStr c), (''inStock'', JBool False)]"

definition sampleProduct :: "string \<Rightarrow> string \<Rightarrow> string \<Rightarrow> obj" where
  "sampleProduct i n c = fmap_of_list ((''id'', JStr i) # sampleBody n c)"

definition sampleRequest ::
  "verb \<Rightarrow> string list \<Rightarrow> string option \<Rightarrow> (string \<times> qvalue) list \<Rightarrow>
   (string \<times> json) list \<Rightarrow> request" where
  "sampleRequest m p k q b =
     \<lparr>verb = m, segments = p, x_api_key = k, query = map_of q, body = fmap_of_list b\<rparr>"

definition sampleArrival ::
  "verb \<Rightarrow> string list \<Rightarrow> string option \<Rightarrow> (string \<times> qvalue) list \<Rightarrow>
   (string \<times> json) list \<Rightarrow> jsError option \<Rightarrow> arrival" where
  "sampleArrival m p k q b e =
     \<lparr>verb = m, segments = p, x_api_key = k, query = map_of q, body = fmap_of_list b,
      parseError = e\<rparr>"

section \<open>Routing\<close>

lemma dispatch_item:
  assumes "segments req = [''api'', ''products'', x]" and "x \<noteq> []"
  shows "dispatch routes req =
     (if verb req = GET then Some (GetProduct, [(''id'', x)])
      else if verb req = PUT then Some (ReplaceProduct, [(''id'', x)])
      else if verb req = DELETE then Some (DeleteProduct, [(''id'', x)])
      else None)"
  using assms by (cases "verb req") (simp_all add: routes_def asciiLower_def)

lemma dispatch_collection:
  assumes "segments req = [''api'', ''products'']"
  shows "dispatch routes req =
     (if verb req = GET then Some (ListProducts, [])
      else if verb req = POST then Some (CreateProduct, [])
      else None)"
  using assms by (cases "verb req") (simp_all add: routes_def asciiLower_def)

lemma matchPath_length: "matchPath pat segs = Some ps \<Longrightarrow> length pat = length segs"
  by (induction pat segs arbitrary: ps rule: matchPath.induct) (auto split: if_splits)

lemma matchPath_three:
  assumes "matchPath [s1, s2, s3] segs = Some ps"
  obtains a b c where "segs = [a, b, c]"
proof -
  from assms have "length segs = 3" by (auto dest: matchPath_length)
  then show thesis
    by (auto simp: numeral_3_eq_3 length_Suc_conv intro: that)
qed

text \<open>
  No request at all is dispatched to the search or the statistics route: a path that
  matches one of them matches \<^verbatim>\<open>/api/products/:id\<close>, which is registered earlier.
\<close>

lemma dead_routes:
  assumes "dispatch routes req = Some (r, ps)"
  shows "r \<noteq> SearchProducts \<and> r \<noteq> ProductStats"
proof (cases "verb req")
  case GET
  show ?thesis
  proof (cases "matchPath [Lit ''api'', Lit ''products'', Param ''id''] (segments req)")
    case (Some qs)
    with GET assms show ?thesis
      by (auto simp: routes_def split: option.splits)
  next
    case None
    have "matchPath [Lit ''api'', Lit ''products'', Lit c] (segments req) = None"
      if "c \<noteq> []" for c
    proof (rule ccontr)
      assume "matchPath [Lit ''api'', Lit ''products'', Lit c] (segments req) \<noteq> None"
      then obtain qs
        where m: "matchPath [Lit ''api'', Lit ''products'', Lit c] (segments req) = Some qs"
        by auto
      then obtain x y z where p: "segments req = [x, y, z]" by (rule matchPath_three)
      with m that have "z \<noteq> []" by (auto simp: asciiLower_def split: if_splits)
      with m p None show False by (auto split: if_splits)
    qed
    then have "matchPath [Lit ''api'', Lit ''products'', Lit ''search''] (segments req) = None"
      and "matchPath [Lit ''api'', Lit ''products'', Lit ''stats''] (segments req) = None"
      by simp_all
    with GET assms show ?thesis
      by (auto simp: routes_def split: option.splits)
  qed
qed (use assms in \<open>auto simp: routes_def split: option.splits\<close>)

section \<open>Responses\<close>

lemma errorBody_eq [simp]: "errorBody a = errorBody b \<longleftrightarrow> a = b"
proof
  assume "errorBody a = errorBody b"
  then have "fmlookup (fmap_of_list [(''error'', JStr a)]) ''error'' =
             fmlookup (fmap_of_list [(''error'', JStr b)]) ''error''"
    by (simp add: errorBody_def)
  then show "a = b" by simp
qed simp

lemma json_eq [simp]: "json c v = json c' v' \<longleftrightarrow> c = c' \<and> v = v'"
  by (auto simp: json_def)

lemma status_json [simp]: "status (json c v) = c"
  by (simp add: json_def)

lemma createHandler_status: "status (fst (createHandler u s req)) = 201"
  by (simp add: createHandler_def Let_def)

lemma replaceHandler_status: "status (fst (replaceHandler s req ps)) \<in> {200, 404}"
  by (simp add: replaceHandler_def notFound_def Let_def split: option.splits)

text \<open>The properties of \<^verbatim>\<open>{ id: v, ...req.body }\<close>.\<close>

lemma lookup_spread:
  "fmlookup (idObject i ++\<^sub>f b) k =
     (case fmlookup b k of
        Some v \<Rightarrow> Some v
      | None \<Rightarrow> if k = ''id'' then map_option JStr i else None)"
  by (cases i) (auto simp: idObject_def fmlookup_dom_iff split: option.splits)

lemma spread_without_id:
  "fmlookup b ''id'' = None \<Longrightarrow> idObject (Some i) ++\<^sub>f b = fmupd ''id'' (JStr i) b"
  by (rule fmap_ext) (auto simp: lookup_spread simp del: fmlookup_add split: option.splits)

lemma sampleProduct_spread:
  "idObject (Some i) ++\<^sub>f fmap_of_list (sampleBody n c) = sampleProduct i n c"
  unfolding sampleProduct_def
  by (rule fmap_ext)
    (auto simp: lookup_spread fmlookup_of_list sampleBody_def simp del: fmlookup_add fmap_of_list_simps)

section \<open>Authentication\<close>

text \<open>The authenticator is the first middleware of every route.\<close>

lemma authenticate_first:
  "(x_api_key req \<noteq> Some ''123456'' \<longrightarrow>
      handle r uuidv4 products req params =
        (json 401 (errorBody ''Unauthorized: Invalid API Key''), products) \<and>
      (\<forall>ps. dispatch routes req = Some (r, ps) \<longrightarrow>
         app uuidv4 products req =
           (json 401 (errorBody ''Unauthorized: Invalid API Key''), products))) \<and>
   (x_api_key req = Some ''123456'' \<longrightarrow>
      authenticate req = None \<and>
      through (authenticate # ms) req products k = through ms req products k)"
proof -
  have "handle r uuidv4 products req params =
        (json 401 (errorBody ''Unauthorized: Invalid API Key''), products)"
    if "x_api_key req \<noteq> Some ''123456''" for params
    using that by (cases r) (simp_all add: authenticate_def)
  then show ?thesis
    by (auto simp: app_def authenticate_def)
qed

text \<open>
  C9, as amended: a request whose body \<^verbatim>\<open>express.json()\<close> has accepted, whose path
  and method match a route and whose \<^verbatim>\<open>x-api-key\<close> header is absent or differs from
  \<^verbatim>\<open>123456\<close> is answered 401 with the body
  \<^verbatim>\<open>{error: "Unauthorized: Invalid API Key"}\<close>, nothing after the authenticator runs
  and the store is unchanged, on every route; with the right key the authenticator
  answers nothing and the rest of the route's chain runs. A request whose body
  \<^verbatim>\<open>express.json()\<close> rejects is answered 500 \<^verbatim>\<open>{error: "Something went wrong"}\<close>
  whatever its header, and the store is unchanged.
\<close>

theorem unauthorized_after_parser:
  "(parseError a = None \<and> x_api_key a \<noteq> Some ''123456'' \<and>
    dispatch routes (request.truncate a) = Some (r, ps) \<longrightarrow>
      server uuidv4 products a =
        (json 401 (errorBody ''Unauthorized: Invalid API Key''), products)) \<and>
   (x_api_key req \<noteq> Some ''123456'' \<longrightarrow>
      handle r uuidv4 products req params =
        (json 401 (errorBody ''Unauthorized: Invalid API Key''), products)) \<and>
   (x_api_key req = Some ''123456'' \<longrightarrow>
      authenticate req = None \<and>
      through (authenticate # ms) req products k = through ms req products k) \<and>
   (parseError a = Some err \<longrightarrow>
      server uuidv4 products a = (json 500 (errorBody ''Something went wrong''), products))"
proof -
  have t: "x_api_key (request.truncate a) = x_api_key a"
    by (simp add: request.truncate_def)
  have "server uuidv4 products a =
      (json 401 (errorBody ''Unauthorized: Invalid API Key''), products)"
    if "parseError a = None" and "x_api_key a \<noteq> Some ''123456''"
      and "dispatch routes (request.truncate a) = Some (r, ps)"
    using that authenticate_first [of "request.truncate a" r uuidv4 products]
    by (simp add: server_def t)
  moreover have "server uuidv4 products a =
      (json 500 (errorBody ''Something went wrong''), products)"
    if "parseError a = Some err"
    using that by (simp add: server_def errorHandler_def)
  ultimately show ?thesis
    using authenticate_first [of req r uuidv4 products params ms k] by simp
qed

theorem unauthorized_after_parser_witness:
  "parseError (sampleArrival DELETE [''api'', ''products'', ''1''] (Some ''12345'') [] [] None) = None \<and>
   x_api_key (sampleArrival DELETE [''api'', ''products'', ''1''] (Some ''12345'') [] [] None) \<noteq>
     Some ''123456'' \<and>
   dispatch routes
     (request.truncate (sampleArrival DELETE [''api'', ''products'', ''1''] (Some ''12345'') [] [] None)) =
     Some (DeleteProduct, [(''id'', ''1'')]) \<and>
   server ''u'' [sampleProduct ''1'' ''Blue Shirt'' ''A'']
     (sampleArrival DELETE [''api'', ''products'', ''1''] (Some ''12345'') [] [] None) =
     (json 401 (errorBody ''Unauthorized: Invalid API Key''), [sampleProduct ''1'' ''Blue Shirt'' ''A'']) \<and>
   x_api_key (sampleRequest DELETE [''api'', ''products'', ''1''] (Some ''123456'') [] []) =
     Some ''123456'' \<and>
   authenticate (sampleRequest DELETE [''api'', ''products'', ''1''] (Some ''123456'') [] []) = None \<and>
   parseError (sampleArrival POST [''api'', ''products''] (Some ''123456'') [] [] (Some SyntaxError)) =
     Some SyntaxError \<and>
   server ''u'' [sampleProduct ''1'' ''Blue Shirt'' ''A'']
     (sampleArrival POST [''api'', ''products''] (Some ''123456'') [] [] (Some SyntaxError)) =
     (json 500 (errorBody ''Something went wrong''), [sampleProduct ''1'' ''Blue Shirt'' ''A''])"
proof -
  let ?a = "sampleArrival DELETE [''api'', ''products'', ''1''] (Some ''12345'') [] [] None"
  let ?r = "sampleRequest DELETE [''api'', ''products'', ''1''] (Some ''123456'') [] []"
  let ?b = "sampleArrival POST [''api'', ''products''] (Some ''123456'') [] [] (Some SyntaxError)"
  let ?s = "[sampleProduct ''1'' ''Blue Shirt'' ''A'']"
  have p: "parseError ?a = None" and k: "x_api_key ?a \<noteq> Some ''123456''"
    by (simp_all add: sampleArrival_def)
  have d: "dispatch routes (request.truncate ?a) = Some (DeleteProduct, [(''id'', ''1'')])"
    by (simp add: dispatch_item sampleArrival_def request.truncate_def)
  have k': "x_api_key ?r = Some ''123456''"
    by (simp add: sampleRequest_def)
  have e: "parseError ?b = Some SyntaxError"
    by (simp add: sampleArrival_def)
  note w = unauthorized_after_parser [of ?a DeleteProduct "[(''id'', ''1'')]" "''u''" ?s ?r]
  from w p k d have "server ''u'' ?s ?a =
      (json 401 (errorBody ''Unauthorized: Invalid API Key''), ?s)"
    by blast
  moreover from w k' have "authenticate ?r = None"
    by blast
  moreover from unauthorized_after_parser [of ?b _ _ "''u''" ?s _ _ _ _ SyntaxError] e
  have "server ''u'' ?s ?b = (json 500 (errorBody ''Something went wrong''), ?s)"
    by blast
  ultimately show ?thesis
    using p k d k' e by (intro conjI)
qed

text \<open>
  C9 as stated fails for a request whose body is not JSON: \<^verbatim>\<open>express.json()\<close> runs
  before the authenticator and passes its error to the error handler, so a POST without
  the key is answered 500 and not 401.
\<close>

theorem malformed_body_counterexample:
  "x_api_key (sampleArrival POST [''api'', ''products''] None [] [] (Some SyntaxError)) = None \<and>
   server ''u'' [] (sampleArrival POST [''api'', ''products''] None [] [] (Some SyntaxError)) =
     (json 500 (errorBody ''Something went wrong''), []) \<and>
   server ''u'' [] (sampleArrival POST [''api'', ''products''] None [] [] (Some SyntaxError)) \<noteq>
     (json 401 (errorBody ''Unauthorized: Invalid API Key''), [])"
  by (simp add: sampleArrival_def server_def errorHandler_def)

section \<open>The order of the routes\<close>




section \<open>Validation\<close>

lemma falsy_iff:
  "falsy v \<longleftrightarrow> v \<in> {None, Some JNull, Some (JBool False), Some (JNum 0), Some (JStr [])}"
  by (cases v rule: falsy.cases) auto

lemma typeof_number: "typeof v = ''number'' \<longleftrightarrow> (\<exists>x. v = Some (JNum x))"
  by (cases v rule: typeof.cases) auto

lemma typeof_boolean: "typeof v = ''boolean'' \<longleftrightarrow> (\<exists>b. v = Some (JBool b))"
  by (cases v rule: typeof.cases) auto

lemma validateProduct_cases:
  "validateProduct req =
     (if requiredMissing (body req) then Some (json 400 (errorBody ''All fields are required''))
      else if wrongTypes (body req)
      then Some (json 400 (errorBody ''Invalid data types for price or inStock''))
      else None)"
  unfolding validateProduct_def requiredMissing_def wrongTypes_def Let_def
    typeof_number typeof_boolean falsy_iff
  by auto

text \<open>
  C7: a POST or PUT that has passed authentication is answered 400
  \<^verbatim>\<open>{error: "All fields are required"}\<close> exactly when \<^verbatim>\<open>name\<close>, \<^verbatim>\<open>description\<close> or
  \<^verbatim>\<open>category\<close> is absent or falsy or \<^verbatim>\<open>price\<close> or \<^verbatim>\<open>inStock\<close> is undefined;
  otherwise it is answered 400 \<^verbatim>\<open>{error: "Invalid data types for price or inStock"}\<close>
  exactly when \<^verbatim>\<open>price\<close> is not a number or \<^verbatim>\<open>inStock\<close> is not a boolean; in both
  cases the store is unchanged, and only otherwise does the route handler run.
\<close>

theorem validation_gate:
  assumes "dispatch routes req = Some (r, ps)"
    and "r = CreateProduct \<or> r = ReplaceProduct"
    and "x_api_key req = Some ''123456''"
  shows "(fst (app uuidv4 products req) = json 400 (errorBody ''All fields are required'')
            \<longleftrightarrow> requiredMissing (body req)) \<and>
         (fst (app uuidv4 products req) =
            json 400 (errorBody ''Invalid data types for price or inStock'')
            \<longleftrightarrow> \<not> requiredMissing (body req) \<and> wrongTypes (body req)) \<and>
         (requiredMissing (body req) \<or> wrongTypes (body req)
            \<longrightarrow> snd (app uuidv4 products req) = products) \<and>
         (\<not> requiredMissing (body req) \<and> \<not> wrongTypes (body req)
            \<longrightarrow> app uuidv4 products req =
                 (if r = CreateProduct then createHandler uuidv4 products req
                  else replaceHandler products req (map_of ps)))"
proof -
  let ?h = "if r = CreateProduct then createHandler uuidv4 products req
            else replaceHandler products req (map_of ps)"
  have app: "app uuidv4 products req =
       (case validateProduct req of Some res \<Rightarrow> (res, products) | None \<Rightarrow> ?h)"
    using assms by (auto simp: app_def authenticate_def split: option.splits)
  have "status (fst ?h) \<noteq> 400"
    using createHandler_status [of uuidv4 products req]
      replaceHandler_status [of products req "map_of ps"]
    by auto
  then have h: "fst ?h \<noteq> json 400 v" for v
    by (metis status_json)
  show ?thesis
    unfolding app validateProduct_cases using h by auto
qed

theorem validation_gate_witness:
  "dispatch routes (sampleRequest POST [''api'', ''products''] (Some ''123456'') [] (sampleBody ''Cup'' ''A'')) =
     Some (CreateProduct, []) \<and>
   x_api_key (sampleRequest POST [''api'', ''products''] (Some ''123456'') [] (sampleBody ''Cup'' ''A'')) = Some ''123456'' \<and>
   \<not> requiredMissing (body (sampleRequest POST [''api'', ''products''] (Some ''123456'') [] (sampleBody ''Cup'' ''A''))) \<and>
   \<not> wrongTypes (body (sampleRequest POST [''api'', ''products''] (Some ''123456'') [] (sampleBody ''Cup'' ''A''))) \<and>
   app ''u'' [] (sampleRequest POST [''api'', ''products''] (Some ''123456'') [] (sampleBody ''Cup'' ''A'')) =
     (json 201 (JObj (sampleProduct ''u'' ''Cup'' ''A'')), [sampleProduct ''u'' ''Cup'' ''A''])"
proof -
  let ?req = "sampleRequest POST [''api'', ''products''] (Some ''123456'') [] (sampleBody ''Cup'' ''A'')"
  have d: "dispatch routes ?req = Some (CreateProduct, [])"
    by (simp add: dispatch_collection sampleRequest_def)
  have k: "x_api_key ?req = Some ''123456''"
    by (simp add: sampleRequest_def)
  have r: "\<not> requiredMissing (body ?req)"
    by (simp add: requiredMissing_def sampleRequest_def sampleBody_def)
  have w: "\<not> wrongTypes (body ?req)"
    by (auto simp: wrongTypes_def sampleRequest_def sampleBody_def)
  have c: "createHandler ''u'' [] ?req =
      (json 201 (JObj (sampleProduct ''u'' ''Cup'' ''A'')), [sampleProduct ''u'' ''Cup'' ''A''])"
    by (simp add: createHandler_def Let_def sampleRequest_def sampleProduct_spread)
  from validation_gate [OF d _ k, of "''u''" "[]"] r w c
  have "app ''u'' [] ?req =
     (json 201 (JObj (sampleProduct ''u'' ''Cup'' ''A'')), [sampleProduct ''u'' ''Cup'' ''A''])"
    by simp
  with d k r w show ?thesis by blast
qed

section \<open>Creation\<close>

lemma validateProduct_None:
  "validateProduct req = None \<longleftrightarrow> \<not> requiredMissing (body req) \<and> \<not> wrongTypes (body req)"
  by (simp add: validateProduct_cases)

text \<open>
  C4: a valid POST whose body has an \<^verbatim>\<open>id\<close> field creates and returns a product
  whose id is the body's value, because the body is spread after the generated id; a
  valid POST whose body has no \<^verbatim>\<open>id\<close> field gets the generated UUID. Every other
  field is the body's, the product is appended to the store and the answer is 201.
\<close>

theorem create_id_from_body:
  assumes "dispatch routes req = Some (CreateProduct, ps)"
    and "x_api_key req = Some ''123456''"
    and "validateProduct req = None"
  shows "\<exists>newProduct.
           app uuidv4 products req = (json 201 (JObj newProduct), products @ [newProduct]) \<and>
           (\<forall>v. fmlookup (body req) ''id'' = Some v \<longrightarrow> fmlookup newProduct ''id'' = Some v) \<and>
           (fmlookup (body req) ''id'' = None \<longrightarrow>
              fmlookup newProduct ''id'' = Some (JStr uuidv4)) \<and>
           (\<forall>k. k \<noteq> ''id'' \<longrightarrow> fmlookup newProduct k = fmlookup (body req) k)"
proof -
  let ?new = "idObject (Some uuidv4) ++\<^sub>f body req"
  have a: "app uuidv4 products req = (json 201 (JObj ?new), products @ [?new])"
    using assms by (simp add: app_def authenticate_def createHandler_def Let_def)
  have b: "fmlookup ?new ''id'' = Some v" if "fmlookup (body req) ''id'' = Some v" for v
    using that by (simp add: lookup_spread del: fmlookup_add)
  have c: "fmlookup ?new ''id'' = Some (JStr uuidv4)" if "fmlookup (body req) ''id'' = None"
    using that by (simp add: lookup_spread del: fmlookup_add)
  have d: "fmlookup ?new k = fmlookup (body req) k" if "k \<noteq> ''id''" for k
    using that by (simp add: lookup_spread del: fmlookup_add split: option.splits)
  show ?thesis
  proof (intro exI conjI allI impI)
    show "app uuidv4 products req = (json 201 (JObj ?new), products @ [?new])"
      by (rule a)
  next
    fix v
    assume "fmlookup (body req) ''id'' = Some v"
    then show "fmlookup ?new ''id'' = Some v" by (rule b)
  next
    assume "fmlookup (body req) ''id'' = None"
    then show "fmlookup ?new ''id'' = Some (JStr uuidv4)" by (rule c)
  next
    fix k :: string
    assume "k \<noteq> ''id''"
    then show "fmlookup ?new k = fmlookup (body req) k" by (rule d)
  qed
qed

theorem create_id_from_body_witness:
  "dispatch routes (sampleRequest POST [''api'', ''products''] (Some ''123456'') []
      ((''id'', JStr ''mine'') # sampleBody ''Cup'' ''A'')) = Some (CreateProduct, []) \<and>
   x_api_key (sampleRequest POST [''api'', ''products''] (Some ''123456'') []
      ((''id'', JStr ''mine'') # sampleBody ''Cup'' ''A'')) = Some ''123456'' \<and>
   validateProduct (sampleRequest POST [''api'', ''products''] (Some ''123456'') []
      ((''id'', JStr ''mine'') # sampleBody ''Cup'' ''A'')) = None \<and>
   fmlookup (body (sampleRequest POST [''api'', ''products''] (Some ''123456'') []
      ((''id'', JStr ''mine'') # sampleBody ''Cup'' ''A''))) ''id'' = Some (JStr ''mine'') \<and>
   (\<exists>newProduct.
      app ''uuid'' [] (sampleRequest POST [''api'', ''products''] (Some ''123456'') []
        ((''id'', JStr ''mine'') # sampleBody ''Cup'' ''A'')) =
        (json 201 (JObj newProduct), [newProduct]) \<and>
      fmlookup newProduct ''id'' = Some (JStr ''mine''))"
proof -
  let ?req = "sampleRequest POST [''api'', ''products''] (Some ''123456'') []
      ((''id'', JStr ''mine'') # sampleBody ''Cup'' ''A'')"
  have d: "dispatch routes ?req = Some (CreateProduct, [])"
    by (simp add: dispatch_collection sampleRequest_def)
  have k: "x_api_key ?req = Some ''123456''"
    by (simp add: sampleRequest_def)
  have v: "validateProduct ?req = None"
    by (auto simp: validateProduct_cases requiredMissing_def wrongTypes_def
        sampleRequest_def sampleBody_def)
  have i: "fmlookup (body ?req) ''id'' = Some (JStr ''mine'')"
    by (simp add: sampleRequest_def)
  from create_id_from_body [OF d k v, of "''uuid''" "[]"] i
  have "\<exists>newProduct.
      app ''uuid'' [] ?req = (json 201 (JObj newProduct), [newProduct]) \<and>
      fmlookup newProduct ''id'' = Some (JStr ''mine'')"
    by auto
  with d k v i show ?thesis by simp
qed

section \<open>Products that share an id\<close>

lemma find_first:
  "P p \<Longrightarrow> \<forall>q \<in> set xs. \<not> P q \<Longrightarrow> find P (xs @ p # ys) = Some p"
  by (induction xs) simp_all

lemma findIndex_first:
  "P p \<Longrightarrow> \<forall>q \<in> set xs. \<not> P q \<Longrightarrow> findIndex P (xs @ p # ys) = Some (length xs)"
  by (induction xs) simp_all

text \<open>
  C10: when several stored products share an id, the routes addressed by id act on the
  first of them in store order: GET returns it, PUT replaces it alone, and DELETE
  removes it alone; every other element, later duplicates included, stays where it was.
\<close>

theorem first_occurrence_only:
  assumes "segments req = [''api'', ''products'', i]" and "i \<noteq> []"
    and "x_api_key req = Some ''123456''"
    and "fmlookup p ''id'' = Some (JStr i)"
    and "\<forall>q \<in> set xs. fmlookup q ''id'' \<noteq> Some (JStr i)"
  shows "(verb req = GET \<longrightarrow>
            app uuidv4 (xs @ p # ys) req = (json 200 (JObj p), xs @ p # ys)) \<and>
         (verb req = PUT \<and> validateProduct req = None \<longrightarrow>
            app uuidv4 (xs @ p # ys) req =
              (json 200 (JObj (idObject (Some i) ++\<^sub>f body req)),
               xs @ (idObject (Some i) ++\<^sub>f body req) # ys)) \<and>
         (verb req = DELETE \<longrightarrow>
            app uuidv4 (xs @ p # ys) req = (\<lparr>status = 204, payload = Empty\<rparr>, xs @ ys))"
proof -
  have P: "hasId (Some i) p" and N: "\<forall>q \<in> set xs. \<not> hasId (Some i) q"
    using assms(4,5) by (simp_all add: hasId_def)
  note d = dispatch_item [OF assms(1,2)]
  have g: "app uuidv4 (xs @ p # ys) req = (json 200 (JObj p), xs @ p # ys)" if "verb req = GET"
    using that assms(3) by (simp add: app_def d authenticate_def getHandler_def find_first [OF P N])
  have r: "app uuidv4 (xs @ p # ys) req =
              (json 200 (JObj (idObject (Some i) ++\<^sub>f body req)),
               xs @ (idObject (Some i) ++\<^sub>f body req) # ys)"
    if "verb req = PUT" and "validateProduct req = None"
    using that assms(3)
    by (simp add: app_def d authenticate_def replaceHandler_def findIndex_first [OF P N] Let_def)
  have e: "app uuidv4 (xs @ p # ys) req = (\<lparr>status = 204, payload = Empty\<rparr>, xs @ ys)"
    if "verb req = DELETE"
    using that assms(3)
    by (simp add: app_def d authenticate_def deleteHandler_def findIndex_first [OF P N])
  show ?thesis
    by (intro conjI impI) (erule g, (erule conjE, erule (1) r), erule e)
qed

theorem first_occurrence_only_witness:
  "segments (sampleRequest DELETE [''api'', ''products'', ''7''] (Some ''123456'') [] []) =
     [''api'', ''products'', ''7''] \<and>
   x_api_key (sampleRequest DELETE [''api'', ''products'', ''7''] (Some ''123456'') [] []) =
     Some ''123456'' \<and>
   verb (sampleRequest DELETE [''api'', ''products'', ''7''] (Some ''123456'') [] []) = DELETE \<and>
   fmlookup (sampleProduct ''7'' ''Cup'' ''A'') ''id'' = Some (JStr ''7'') \<and>
   fmlookup (sampleProduct ''1'' ''Pen'' ''B'') ''id'' \<noteq> Some (JStr ''7'') \<and>
   app ''u''
     ([sampleProduct ''1'' ''Pen'' ''B''] @ sampleProduct ''7'' ''Cup'' ''A'' #
      [sampleProduct ''7'' ''Mug'' ''A''])
     (sampleRequest DELETE [''api'', ''products'', ''7''] (Some ''123456'') [] []) =
     (\<lparr>status = 204, payload = Empty\<rparr>,
      [sampleProduct ''1'' ''Pen'' ''B''] @ [sampleProduct ''7'' ''Mug'' ''A'']) \<and>
   app ''u''
     ([sampleProduct ''1'' ''Pen'' ''B''] @ sampleProduct ''7'' ''Cup'' ''A'' #
      [sampleProduct ''7'' ''Mug'' ''A''])
     (sampleRequest GET [''api'', ''products'', ''7''] (Some ''123456'') [] []) =
     (json 200 (JObj (sampleProduct ''7'' ''Cup'' ''A'')),
      [sampleProduct ''1'' ''Pen'' ''B''] @ sampleProduct ''7'' ''Cup'' ''A'' #
      [sampleProduct ''7'' ''Mug'' ''A'']) \<and>
   validateProduct (sampleRequest PUT [''api'', ''products'', ''7''] (Some ''123456'') []
      (sampleBody ''Jar'' ''C'')) = None \<and>
   app ''u''
     ([sampleProduct ''1'' ''Pen'' ''B''] @ sampleProduct ''7'' ''Cup'' ''A'' #
      [sampleProduct ''7'' ''Mug'' ''A''])
     (sampleRequest PUT [''api'', ''products'', ''7''] (Some ''123456'') []
        (sampleBody ''Jar'' ''C'')) =
     (json 200 (JObj (sampleProduct ''7'' ''Jar'' ''C'')),
      [sampleProduct ''1'' ''Pen'' ''B''] @ sampleProduct ''7'' ''Jar'' ''C'' #
      [sampleProduct ''7'' ''Mug'' ''A''])"
proof -
  let ?del = "sampleRequest DELETE [''api'', ''products'', ''7''] (Some ''123456'') [] []"
  let ?get = "sampleRequest GET [''api'', ''products'', ''7''] (Some ''123456'') [] []"
  let ?put = "sampleRequest PUT [''api'', ''products'', ''7''] (Some ''123456'') []
      (sampleBody ''Jar'' ''C'')"
  let ?xs = "[sampleProduct ''1'' ''Pen'' ''B'']"
  let ?ys = "[sampleProduct ''7'' ''Mug'' ''A'']"
  have s: "segments ?del = [''api'', ''products'', ''7'']"
    and k: "x_api_key ?del = Some ''123456''" and m: "verb ?del = DELETE"
    by (simp_all add: sampleRequest_def)
  have sg: "segments ?get = [''api'', ''products'', ''7'']"
    and kg: "x_api_key ?get = Some ''123456''" and mg: "verb ?get = GET"
    by (simp_all add: sampleRequest_def)
  have sp: "segments ?put = [''api'', ''products'', ''7'']"
    and kp: "x_api_key ?put = Some ''123456''" and mp: "verb ?put = PUT"
    and bp: "body ?put = fmap_of_list (sampleBody ''Jar'' ''C'')"
    by (simp_all add: sampleRequest_def)
  have v: "validateProduct ?put = None"
    by (auto simp: validateProduct_cases requiredMissing_def wrongTypes_def
        sampleRequest_def sampleBody_def)
  have p: "fmlookup (sampleProduct ''7'' ''Cup'' ''A'') ''id'' = Some (JStr ''7'')"
    by (simp add: sampleProduct_def)
  have q: "fmlookup (sampleProduct ''1'' ''Pen'' ''B'') ''id'' \<noteq> Some (JStr ''7'')"
    by (simp add: sampleProduct_def)
  then have n: "\<forall>q \<in> set ?xs. fmlookup q ''id'' \<noteq> Some (JStr ''7'')"
    by simp
  from first_occurrence_only [OF s _ k p n, of "''u''" ?ys] m
  have d: "app ''u'' (?xs @ sampleProduct ''7'' ''Cup'' ''A'' # ?ys) ?del =
     (\<lparr>status = 204, payload = Empty\<rparr>, ?xs @ ?ys)"
    by simp
  from first_occurrence_only [OF sg _ kg p n, of "''u''" ?ys] mg
  have g: "app ''u'' (?xs @ sampleProduct ''7'' ''Cup'' ''A'' # ?ys) ?get =
     (json 200 (JObj (sampleProduct ''7'' ''Cup'' ''A'')),
      ?xs @ sampleProduct ''7'' ''Cup'' ''A'' # ?ys)"
    by simp
  from first_occurrence_only [OF sp _ kp p n, of "''u''" ?ys] mp v
  have r: "app ''u'' (?xs @ sampleProduct ''7'' ''Cup'' ''A'' # ?ys) ?put =
     (json 200 (JObj (sampleProduct ''7'' ''Jar'' ''C'')),
      ?xs @ sampleProduct ''7'' ''Jar'' ''C'' # ?ys)"
    by (simp add: bp sampleProduct_spread)
  from s k m p q d g v r show ?thesis
    by (intro conjI)
qed

section \<open>Listing\<close>



















section \<open>The search and statistics routes\<close>

text \<open>
  What the two handlers compute when they are called: the search handler answers 400
  without a query and otherwise returns the matching products and their number, when
  every stored name is a string; the statistics handler counts the products of each
  category, when the categories are strings that name no property of
  \<^verbatim>\<open>Object.prototype\<close>.
\<close>

lemma filterJs_nameIncludes:
  assumes "\<forall>p \<in> set products. \<exists>n. fmlookup p ''name'' = Some (JStr n)"
  shows "filterJs (nameIncludes (QStr q)) products = Inr (specSearch q products)"
  using assms
  by (induction products) (auto simp: nameIncludes_def specSearch_def includesStr_def)

lemma searchHandler_reached:
  assumes "\<forall>p \<in> set products. \<exists>n. fmlookup p ''name'' = Some (JStr n)"
  shows "query req ''q'' = None \<Longrightarrow>
           searchHandler products req = Inr (json 400 (errorBody ''Missing search query (?q=)''))"
    and "query req ''q'' = Some (QStr q) \<Longrightarrow> q \<noteq> [] \<Longrightarrow>
           searchHandler products req =
             Inr (json 200 (JObj (fmap_of_list
               [(''count'', JNum (of_nat (length (specSearch q products)))),
                (''results'', JArr (map JObj (specSearch q products)))])))"
  using filterJs_nameIncludes [OF assms, of q]
  by (simp_all add: searchHandler_def)

lemma countCategory_plain:
  assumes "c \<notin> set prototypeFunctions" and "c \<noteq> ''__proto__''"
    and "\<forall>k t. fmlookup stats k = Some t \<longrightarrow> (\<exists>n. t = Count n)"
  shows "fmlookup (countCategory c stats) k =
     (if k = c
      then Some (Count (case fmlookup stats c of Some (Count n) \<Rightarrow> Suc n | _ \<Rightarrow> 1))
      else fmlookup stats k)"
  using assms by (auto simp: countCategory_def split: option.splits tally.splits)

lemma forEachCategory_counts:
  assumes "\<forall>p \<in> set products. \<exists>c. fmlookup p ''category'' = Some (JStr c) \<and>
             c \<notin> set prototypeFunctions \<and> c \<noteq> ''__proto__''"
    and "\<forall>k t. fmlookup stats k = Some t \<longrightarrow> (\<exists>n. t = Count n)"
  shows "\<exists>stats'. forEachCategory products stats = Inr stats' \<and>
     (\<forall>k. fmlookup stats' k =
        (case fmlookup stats k of
           Some (Count n) \<Rightarrow> Some (Count (n + specCount k products))
         | _ \<Rightarrow> if specCount k products = 0 then None
                else Some (Count (specCount k products))))"
  using assms
proof (induction products arbitrary: stats)
  case Nil
  then show ?case
    by (auto simp: specCount_def split: option.splits tally.splits)
next
  case (Cons p products)
  from Cons.prems(1) obtain c where c: "fmlookup p ''category'' = Some (JStr c)"
    "c \<notin> set prototypeFunctions" "c \<noteq> ''__proto__''"
    by auto
  note look = countCategory_plain [OF c(2,3) Cons.prems(2)]
  have "\<forall>k t. fmlookup (countCategory c stats) k = Some t \<longrightarrow> (\<exists>n. t = Count n)"
    using Cons.prems(2) by (auto simp: look split: if_splits)
  with Cons.IH [of "countCategory c stats"] Cons.prems(1)
  obtain stats' where s: "forEachCategory products (countCategory c stats) = Inr stats'"
    and l: "\<And>k. fmlookup stats' k =
        (case fmlookup (countCategory c stats) k of
           Some (Count n) \<Rightarrow> Some (Count (n + specCount k products))
         | _ \<Rightarrow> if specCount k products = 0 then None
                else Some (Count (specCount k products)))"
    by auto
  have "forEachCategory (p # products) stats = Inr stats'"
    using c(1) s by (simp add: toPropertyKey_def)
  moreover have "fmlookup stats' k =
        (case fmlookup stats k of
           Some (Count n) \<Rightarrow> Some (Count (n + specCount k (p # products)))
         | _ \<Rightarrow> if specCount k (p # products) = 0 then None
                else Some (Count (specCount k (p # products))))" for k
    using Cons.prems(2) [rule_format, of k] c(1)
    by (auto simp: l look specCount_def split: option.splits tally.splits)
  ultimately show ?case by blast
qed

lemma statsHandler_reached:
  assumes "\<forall>p \<in> set products. \<exists>c. fmlookup p ''category'' = Some (JStr c) \<and>
             c \<notin> set prototypeFunctions \<and> c \<noteq> ''__proto__''"
  shows "\<exists>counts. statsHandler products =
           Inr (json 200 (JObj (fmap_of_list [(''countByCategory'', JObj counts)]))) \<and>
         (\<forall>c. fmlookup counts c =
            (if specCount c products = 0 then None
             else Some (JNum (of_nat (specCount c products)))))"
proof -
  from forEachCategory_counts [OF assms, of fmempty]
  obtain stats' where s: "forEachCategory products fmempty = Inr stats'"
    and l: "\<And>k. fmlookup stats' k =
       (if specCount k products = 0 then None else Some (Count (specCount k products)))"
    by auto
  have "statsHandler products =
      Inr (json 200 (JObj (fmap_of_list [(''countByCategory'', JObj (fmmap tallyJson stats'))])))"
    by (simp add: statsHandler_def s)
  moreover have "fmlookup (fmmap tallyJson stats') c =
      (if specCount c products = 0 then None
       else Some (JNum (of_nat (specCount c products))))" for c
    by (simp add: l)
  ultimately show ?thesis by blast
qed

text \<open>
  C1: a GET of \<^verbatim>\<open>/api/products/search\<close> with the valid key should be answered 400
  without \<^verbatim>\<open>q\<close> and 200 with the matching products otherwise. The application
  answers 404 \<^verbatim>\<open>{error: "Product not found"}\<close> in both cases, here over a store
  that holds "Blue Shirt" and for \<^verbatim>\<open>q=shirt\<close>, although its search handler would
  return that product: the request is taken by \<^verbatim>\<open>/api/products/:id\<close>.
\<close>

theorem search_route_shadowed:
  "app ''u'' [sampleProduct ''1'' ''Blue Shirt'' ''A'']
     (sampleRequest GET [''api'', ''products'', ''search''] (Some ''123456'')
        [(''q'', QStr ''shirt'')] []) =
     (json 404 (errorBody ''Product not found''), [sampleProduct ''1'' ''Blue Shirt'' ''A'']) \<and>
   app ''u'' [sampleProduct ''1'' ''Blue Shirt'' ''A'']
     (sampleRequest GET [''api'', ''products'', ''search''] (Some ''123456'') [] []) =
     (json 404 (errorBody ''Product not found''), [sampleProduct ''1'' ''Blue Shirt'' ''A'']) \<and>
   searchHandler [sampleProduct ''1'' ''Blue Shirt'' ''A'']
     (sampleRequest GET [''api'', ''products'', ''search''] (Some ''123456'')
        [(''q'', QStr ''shirt'')] []) =
     Inr (json 200 (JObj (fmap_of_list
        [(''count'', JNum 1),
         (''results'', JArr [JObj (sampleProduct ''1'' ''Blue Shirt'' ''A'')])])))"
  by code_simp

text \<open>
  C3: a GET of \<^verbatim>\<open>/api/products/stats\<close> with the valid key should be answered 200
  with the count of each category. Over the categories A, A, B the application answers
  404 \<^verbatim>\<open>{error: "Product not found"}\<close>, although its statistics handler would
  return \<^verbatim>\<open>{A: 2, B: 1}\<close>: the request is taken by \<^verbatim>\<open>/api/products/:id\<close>.
\<close>

theorem stats_route_shadowed:
  "app ''u''
     [sampleProduct ''1'' ''Pen'' ''A'', sampleProduct ''2'' ''Cup'' ''A'',
      sampleProduct ''3'' ''Mug'' ''B'']
     (sampleRequest GET [''api'', ''products'', ''stats''] (Some ''123456'') [] []) =
     (json 404 (errorBody ''Product not found''),
      [sampleProduct ''1'' ''Pen'' ''A'', sampleProduct ''2'' ''Cup'' ''A'',
       sampleProduct ''3'' ''Mug'' ''B'']) \<and>
   statsHandler
     [sampleProduct ''1'' ''Pen'' ''A'', sampleProduct ''2'' ''Cup'' ''A'',
      sampleProduct ''3'' ''Mug'' ''B''] =
     Inr (json 200 (JObj (fmap_of_list
        [(''countByCategory'', JObj (fmap_of_list [(''A'', JNum 2), (''B'', JNum 1)]))])))"
  by code_simp

section \<open>Uniqueness of ids\<close>

text \<open>
  Creating a product keeps the ids distinct when the body has no \<^verbatim>\<open>id\<close> and the
  generated identifier is new.
\<close>

lemma create_fresh_id:
  assumes "dispatch routes req = Some (CreateProduct, ps)"
    and "x_api_key req = Some ''123456''" and "validateProduct req = None"
    and "fmlookup (body req) ''id'' = None"
    and "distinct (map (\<lambda>p. fmlookup p ''id'') products)"
    and "\<forall>p \<in> set products. fmlookup p ''id'' \<noteq> Some (JStr uuidv4)"
  shows "distinct (map (\<lambda>p. fmlookup p ''id'') (snd (app uuidv4 products req)))"
proof -
  have "snd (app uuidv4 products req) = products @ [fmupd ''id'' (JStr uuidv4) (body req)]"
    using assms(1-4)
    by (simp add: app_def authenticate_def createHandler_def Let_def spread_without_id)
  with assms(5,6) show ?thesis by auto
qed

text \<open>
  C5: the ids of the stored products should be pairwise distinct in every reachable
  store, and the id a create returns should be non-empty. Two POST requests whose bodies
  carry the same \<^verbatim>\<open>id\<close> reach a store with two products of that id, and a POST
  whose body carries the empty string as \<^verbatim>\<open>id\<close> returns a product with an empty id.
\<close>

theorem duplicate_ids_reachable:
  "reachable [sampleProduct ''x'' ''Pen'' ''A'', sampleProduct ''x'' ''Cup'' ''B''] \<and>
   \<not> distinct (map (\<lambda>p. fmlookup p ''id'')
         [sampleProduct ''x'' ''Pen'' ''A'', sampleProduct ''x'' ''Cup'' ''B'']) \<and>
   app ''0b0e7a52-6d0c-4d8e-9a51-2f1f6f6f3c11'' []
     (sampleRequest POST [''api'', ''products''] (Some ''123456'') []
        ((''id'', JStr []) # sampleBody ''Pen'' ''A'')) =
     (json 201 (JObj (sampleProduct [] ''Pen'' ''A'')), [sampleProduct [] ''Pen'' ''A''])"
proof -
  have a: "app ''0b0e7a52-6d0c-4d8e-9a51-2f1f6f6f3c11'' []
     (sampleRequest POST [''api'', ''products''] (Some ''123456'') []
        ((''id'', JStr ''x'') # sampleBody ''Pen'' ''A'')) =
     (json 201 (JObj (sampleProduct ''x'' ''Pen'' ''A'')), [sampleProduct ''x'' ''Pen'' ''A''])"
    by code_simp
  have b: "app ''7c9e6679-7425-40de-944b-e07fc1f90ae7'' [sampleProduct ''x'' ''Pen'' ''A'']
     (sampleRequest POST [''api'', ''products''] (Some ''123456'') []
        ((''id'', JStr ''x'') # sampleBody ''Cup'' ''B'')) =
     (json 201 (JObj (sampleProduct ''x'' ''Cup'' ''B'')),
      [sampleProduct ''x'' ''Pen'' ''A'', sampleProduct ''x'' ''Cup'' ''B''])"
    by code_simp
  have "reachable [sampleProduct ''x'' ''Pen'' ''A'']"
    by (rule reachable.step [OF reachable.start a])
  then have "reachable [sampleProduct ''x'' ''Pen'' ''A'', sampleProduct ''x'' ''Cup'' ''B'']"
    by (rule reachable.step [OF _ b])
  moreover have "\<not> distinct (map (\<lambda>p. fmlookup p ''id'')
         [sampleProduct ''x'' ''Pen'' ''A'', sampleProduct ''x'' ''Cup'' ''B''])"
    by (simp add: sampleProduct_def)
  moreover have "app ''0b0e7a52-6d0c-4d8e-9a51-2f1f6f6f3c11'' []
     (sampleRequest POST [''api'', ''products''] (Some ''123456'') []
        ((''id'', JStr []) # sampleBody ''Pen'' ''A'')) =
     (json 201 (JObj (sampleProduct [] ''Pen'' ''A'')), [sampleProduct [] ''Pen'' ''A''])"
    by code_simp
  ultimately show ?thesis by simp
qed

section \<open>Replacement\<close>

lemma findIndex_None:
  "\<forall>q \<in> set xs. \<not> P q \<Longrightarrow> findIndex P xs = None"
  by (induction xs) simp_all

lemma replace_unknown_id:
  assumes "verb req = PUT" and "segments req = [''api'', ''products'', i]" and "i \<noteq> []"
    and "x_api_key req = Some ''123456''" and "validateProduct req = None"
    and "\<forall>p \<in> set products. fmlookup p ''id'' \<noteq> Some (JStr i)"
  shows "app uuidv4 products req = (json 404 (errorBody ''Product not found''), products)"
proof -
  have "findIndex (hasId (Some i)) products = None"
    using assms(6) by (intro findIndex_None) (simp add: hasId_def)
  then show ?thesis
    using assms(1,4,5)
    by (simp add: app_def dispatch_item [OF assms(2,3)] authenticate_def replaceHandler_def
        notFound_def)
qed

text \<open>
  C6: a valid PUT on an existing id should store a record whose id is the path
  parameter. With \<^verbatim>\<open>id: "2"\<close> in the body, a PUT of \<^verbatim>\<open>/api/products/1\<close> stores and
  returns a record whose id is 2: the body is spread after the path's id.
\<close>

theorem replace_id_from_body:
  "app ''u'' [sampleProduct ''1'' ''Pen'' ''A'']
     (sampleRequest PUT [''api'', ''products'', ''1''] (Some ''123456'') []
        ((''id'', JStr ''2'') # sampleBody ''Cup'' ''B'')) =
     (json 200 (JObj (sampleProduct ''2'' ''Cup'' ''B'')), [sampleProduct ''2'' ''Cup'' ''B'']) \<and>
   fmlookup (sampleProduct ''2'' ''Cup'' ''B'') ''id'' = Some (JStr ''2'') \<and>
   JStr ''2'' \<noteq> JStr ''1''"
  by code_simp

end
